theory Spec2Isabelle
  imports Main
begin

section \<open>Data model of the hook (src/src/main.tsx, lines 7-74)\<close>

text \<open>
  Identifiers come from \<open>uuidv4()\<close>, an external random source: every operation that
  calls it takes the generated identifier as an argument.
\<close>

type_synonym uuid = string

text \<open>
  \<open>utter\<close> accepts \<open>string | object\<close>. Nothing in the hook looks inside an object, so
  an object is kept as its list of fields.
\<close>

datatype utterance = Str string | Obj "(string \<times> string) list"

datatype ContentType = ContentText | ContentImage

text \<open>
  The \<open>onClick\<close> closure of a quick-reply option (lines 147-171), as the values it
  captured: the payload of the option \<open>q1\<close>, the option's index \<open>i1\<close> and
  \<open>response.id\<close>.
\<close>

datatype click_handler = OnClick (q1_payload: string) (i1: nat) (response_id: uuid)

record QuickReply =
  content_type :: ContentType
  title :: string
  payload :: string
  clicked :: "bool option"
  onClick :: "click_handler option"

datatype Attachment = ImageAttachment (src: string)

text \<open>
  \<open>SocketIOUtterBot\<close> is a \<open>Partial\<close>: every field may be absent, and
  \<open>hasOwnProperty\<close> is the test \<open>\<noteq> None\<close>.
\<close>

record SocketIOUtterBot =
  attachment :: "Attachment option"
  quick_replies :: "QuickReply list option"
  msg_clicked :: "bool option"
  msg_text :: "utterance option"

text \<open>
  A \<open>bot_uttered\<close> payload as the socket delivers it: \<open>null\<close>, or an object with the
  declared fields it has and the names of its other own keys.
\<close>

datatype raw_payload = Null | Object "string list" SocketIOUtterBot

datatype RasaMessageType =
  MT_attachment | MT_text | MT_quickReply | MT_buttons | MT_unknown | MT_uploader

text \<open>
  \<open>RasaMessage = SocketIOUtterBot & RasaMetaInformation\<close>. The fields \<open>text\<close>, \<open>id\<close>
  and \<open>type\<close> are \<open>msg_text\<close>, \<open>msg_id\<close> and \<open>msg_type\<close> here, and the \<open>clicked\<close>
  of a message is \<open>msg_clicked\<close>; \<open>clicked\<close> is the flag of a single option.
\<close>

record RasaMessage = SocketIOUtterBot +
  msg_id :: uuid
  received :: bool
  msg_type :: RasaMessageType

datatype RasaStatus = connecting | connected | waitingForResponse | disconnected | error

record SocketIOUtterUser =
  session_id :: "string option"
  message :: utterance

datatype ClientEvent =
  user_uttered SocketIOUtterUser
| session_request "string option"

text \<open>
  The two errors the hook can throw: the \<open>Error\<close> of line 154, and the \<open>TypeError\<close> of
  calling \<open>message.hasOwnProperty\<close> where that is not the inherited method.
\<close>

datatype js_error = CouldntFind | TypeError

section \<open>State of one hook instance\<close>

text \<open>
  The state is what \<open>useState\<close> and \<open>useRef\<close> hold: the status, the history, whether
  \<open>socketRef.current\<close> is set, and \<open>sessionRef.current\<close>. React applies the updaters
  passed to \<open>setHistory\<close> one after the other in the order of the calls, so each call is
  applied where it stands. The trace lists the effects of the hook in program order:
  calls of \<open>socket.emit\<close>, of the two state setters (with the history value the updater
  produced) and writes of \<open>sessionRef\<close>.
\<close>

datatype effect =
  Emit ClientEvent
| SetStatus RasaStatus
| SetHistory "RasaMessage list"
| SetSession string

record hook_state =
  status :: RasaStatus
  history :: "RasaMessage list"
  socketRef :: bool
  sessionRef :: "string option"
  trace :: "effect list"

definition initial :: hook_state where
  "initial = \<lparr>status = disconnected, history = [], socketRef = False,
              sessionRef = None, trace = []\<rparr>"

text \<open>\<open>socket.emit(...)\<close> on the socket itself, as the \<open>connect\<close> handler calls it.\<close>

definition socket_emit :: "ClientEvent \<Rightarrow> hook_state \<Rightarrow> hook_state" where
  "socket_emit ev st = st\<lparr>trace := trace st @ [Emit ev]\<rparr>"

text \<open>\<open>socketRef.current?.emit(...)\<close>: nothing is sent while no socket exists.\<close>

definition emit :: "ClientEvent \<Rightarrow> hook_state \<Rightarrow> hook_state" where
  "emit ev st = (if socketRef st then socket_emit ev st else st)"

definition setStatus :: "RasaStatus \<Rightarrow> hook_state \<Rightarrow> hook_state" where
  "setStatus s st = st\<lparr>status := s, trace := trace st @ [SetStatus s]\<rparr>"

definition setHistory ::
  "(RasaMessage list \<Rightarrow> RasaMessage list) \<Rightarrow> hook_state \<Rightarrow> hook_state" where
  "setHistory f st =
     (let h = f (history st) in st\<lparr>history := h, trace := trace st @ [SetHistory h]\<rparr>)"

definition setSession :: "string \<Rightarrow> hook_state \<Rightarrow> hook_state" where
  "setSession s st = st\<lparr>sessionRef := Some s, trace := trace st @ [SetSession s]\<rparr>"

section \<open>JavaScript helpers\<close>

text \<open>\<open>a || b\<close> on \<open>string | undefined\<close>: \<open>undefined\<close> and the empty string are falsy.\<close>

definition or_else :: "string option \<Rightarrow> string \<Rightarrow> string" where
  "or_else a b = (case a of None \<Rightarrow> b | Some s \<Rightarrow> if s = [] then b else s)"

definition startsWith :: "string \<Rightarrow> string \<Rightarrow> bool" where
  "startsWith s p = (take (length p) s = p)"

text \<open>\<open>Array.prototype.findIndex\<close>; \<open>None\<close> is the result \<open>-1\<close>.\<close>

fun findIndex :: "('a \<Rightarrow> bool) \<Rightarrow> 'a list \<Rightarrow> nat option" where
  "findIndex P [] = None"
| "findIndex P (x # xs) =
     (if P x then Some 0 else map_option Suc (findIndex P xs))"

text \<open>\<open>Array.prototype.map\<close> with the \<open>(element, index)\<close> callback.\<close>

definition map_index :: "('a \<Rightarrow> nat \<Rightarrow> 'b) \<Rightarrow> 'a list \<Rightarrow> 'b list" where
  "map_index f xs = map (\<lambda>(i, x). f x i) (enumerate 0 xs)"

section \<open>The hook (lines 83-209)\<close>

text \<open>
  \<open>message.hasOwnProperty(...)\<close> is a property read followed by a call. On \<open>null\<close> the
  read throws; on an object with an own key \<open>hasOwnProperty\<close> the read gives that value,
  which no payload can make a function, and the call throws. Otherwise the inherited
  method answers whether the key is present.
\<close>

fun getType :: "raw_payload \<Rightarrow> js_error + RasaMessageType" where
  "getType Null = Inl TypeError"
| "getType (Object ks msg) =
     (if ''hasOwnProperty'' \<in> set ks then Inl TypeError
      else if attachment msg \<noteq> None then Inr MT_attachment
      else if quick_replies msg \<noteq> None then Inr MT_quickReply
      else if msg_text msg \<noteq> None then Inr MT_text
      else Inr MT_unknown)"

text \<open>The object literal of lines 108-113: the history entry of an utterance of the user.\<close>

definition user_message :: "utterance \<Rightarrow> uuid \<Rightarrow> RasaMessage" where
  "user_message msg u =
     \<lparr>attachment = None, quick_replies = None, msg_clicked = None,
      msg_text = Some msg, msg_id = u, received = False, msg_type = MT_text\<rparr>"

text \<open>Lines 100-104 of \<open>utter\<close>: the event is built and handed to the socket.\<close>

definition utter_emit :: "utterance \<Rightarrow> hook_state \<Rightarrow> hook_state" where
  "utter_emit msg st =
     (let socketIOMessage = \<lparr>session_id = Some (or_else (sessionRef st) []), message = msg\<rparr>
      in emit (user_uttered socketIOMessage) st)"

definition utter :: "utterance \<Rightarrow> uuid \<Rightarrow> hook_state \<Rightarrow> hook_state" where
  "utter msg u st =
     (let st1 = utter_emit msg st;
          st2 = setStatus waitingForResponse st1
      in setHistory (\<lambda>hist. hist @ [user_message msg u]) st2)"

text \<open>The body of \<open>useEffect\<close> up to the registration of the handlers (lines 120-122).\<close>

definition mount :: "hook_state \<Rightarrow> hook_state" where
  "mount st = setStatus connecting (st\<lparr>socketRef := True\<rparr>)"

definition on_connect :: "hook_state \<Rightarrow> hook_state" where
  "on_connect st = socket_emit (session_request (sessionRef st)) (setStatus connected st)"

text \<open>
  \<open>if (sendOnConnect)\<close>: an absent and an empty \<open>sendOnConnect\<close> are both falsy.
\<close>

definition on_session_confirm :: "string option \<Rightarrow> string \<Rightarrow> uuid \<Rightarrow> hook_state \<Rightarrow> hook_state" where
  "on_session_confirm sendOnConnect sessionID u st =
     (let st1 = setSession sessionID st
      in case sendOnConnect of
           None \<Rightarrow> st1
         | Some s \<Rightarrow> if s = [] then st1 else utter (Str s) u st1)"

text \<open>
  Lines 155-161: the assignments to the message found, with \<open>i\<close> the index \<open>i1\<close> the
  closure captured. \<open>quick_replies?.map\<close> leaves an absent option list absent.
\<close>

definition mark_clicked :: "nat \<Rightarrow> RasaMessage \<Rightarrow> RasaMessage" where
  "mark_clicked i m =
     m\<lparr>quick_replies :=
         map_option (map_index (\<lambda>q2 i2. q2\<lparr>clicked := Some (i = i2)\<rparr>)) (quick_replies m),
       msg_clicked := Some True\<rparr>"

text \<open>
  The updater of the command branch (lines 151-164). It throws when the message is not
  found; otherwise it rewrites the message found first, in place.
\<close>

definition resolve :: "click_handler \<Rightarrow> RasaMessage list \<Rightarrow> js_error + RasaMessage list" where
  "resolve c hist =
     (case findIndex (\<lambda>v. msg_id v = response_id c) hist of
        None \<Rightarrow> Inl CouldntFind
      | Some index \<Rightarrow> Inr (hist[index := mark_clicked (i1 c) (hist ! index)]))"

text \<open>
  Running the \<open>onClick\<close> closure. The setter calls of one click are one batch: React
  runs the queued updaters when it next renders. When the updater of the command branch
  throws there, the render fails and nothing of the batch is committed, neither the
  status nor the appended message of \<open>utter\<close>; the event handed to the socket on line 104
  has been sent all the same.
\<close>

definition run_onClick :: "click_handler \<Rightarrow> uuid \<Rightarrow> hook_state \<Rightarrow> hook_state \<times> js_error option" where
  "run_onClick c u st =
     (let st1 = utter (Str (q1_payload c)) u st
      in if startsWith (q1_payload c) ''/'' then
           (case resolve c (history st1) of
              Inl e \<Rightarrow> (utter_emit (Str (q1_payload c)) st, Some e)
            | Inr h \<Rightarrow> (setHistory (\<lambda>_. h) st1, None))
         else
           (setHistory (filter (\<lambda>r. msg_id r \<noteq> response_id c)) st1, None))"

text \<open>
  The declared fields that the spread \<open>{...message}\<close> copies. The other own keys are
  copied as well, and nothing in the hook reads them.
\<close>

fun spread :: "raw_payload \<Rightarrow> SocketIOUtterBot" where
  "spread Null =
     \<lparr>attachment = None, quick_replies = None, msg_clicked = None, msg_text = None\<rparr>"
| "spread (Object ks msg) = msg"

text \<open>
  The \<open>bot_uttered\<close> handler (lines 135-177). \<open>getType\<close> is called first, on the payload
  as delivered; when it throws, the handler ends there and the state is as before.
\<close>

definition on_bot_uttered :: "raw_payload \<Rightarrow> uuid \<Rightarrow> hook_state \<Rightarrow> hook_state \<times> js_error option" where
  "on_bot_uttered raw u st =
     (case getType raw of
        Inl e \<Rightarrow> (st, Some e)
      | Inr messageType \<Rightarrow>
          (let msg = spread raw;
               response = \<lparr>attachment = attachment msg, quick_replies = quick_replies msg,
                           msg_clicked = msg_clicked msg, msg_text = msg_text msg,
                           msg_id = u, received = True, msg_type = messageType\<rparr>;
               response = (case quick_replies response of
                             None \<Rightarrow> response
                           | Some qs \<Rightarrow> response\<lparr>quick_replies := Some (map_index
                               (\<lambda>q1 i1. q1\<lparr>clicked := Some False,
                                            onClick := Some (OnClick (payload q1) i1 (msg_id response))\<rparr>)
                               qs)\<rparr>)
           in (setStatus connected (setHistory (\<lambda>hist. hist @ [response]) st), None)))"

definition on_disconnect :: "hook_state \<Rightarrow> hook_state" where
  "on_disconnect st = setStatus disconnected st"

definition on_error :: "hook_state \<Rightarrow> hook_state" where
  "on_error st = setStatus error st"

section \<open>Events delivered to the hook\<close>

text \<open>
  What the socket and the application can do to a mounted hook: the four socket events of
  lines 125-185, a call of the returned \<open>utter\<close>, a call of an \<open>onClick\<close> closure, and
  a call of the returned \<open>setHistory\<close> with a new value.
\<close>

datatype event =
  Connect
| SessionConfirm string uuid
| BotUttered raw_payload uuid
| Disconnect
| TransportError
| Utter utterance uuid
| Click click_handler uuid
| ReplaceHistory "RasaMessage list"

fun step :: "string option \<Rightarrow> event \<Rightarrow> hook_state \<Rightarrow> hook_state \<times> js_error option" where
  "step sendOnConnect Connect st = (on_connect st, None)"
| "step sendOnConnect (SessionConfirm sessionID u) st =
     (on_session_confirm sendOnConnect sessionID u st, None)"
| "step sendOnConnect (BotUttered raw u) st = on_bot_uttered raw u st"
| "step sendOnConnect Disconnect st = (on_disconnect st, None)"
| "step sendOnConnect TransportError st = (on_error st, None)"
| "step sendOnConnect (Utter msg u) st = (utter msg u st, None)"
| "step sendOnConnect (Click c u) st = run_onClick c u st"
| "step sendOnConnect (ReplaceHistory h) st = (setHistory (\<lambda>_. h) st, None)"

text \<open>
  A \<open>TypeError\<close> thrown by the \<open>bot_uttered\<close> handler leaves the hook mounted, and the run
  goes on. The error of a history updater fails the render, and the run stops there.
\<close>

fun run :: "string option \<Rightarrow> event list \<Rightarrow> hook_state \<Rightarrow> hook_state \<times> js_error option" where
  "run sendOnConnect [] st = (st, None)"
| "run sendOnConnect (e # es) st =
     (case step sendOnConnect e st of
        (st', None) \<Rightarrow> run sendOnConnect es st'
      | (st', Some TypeError) \<Rightarrow> run sendOnConnect es st'
      | (st', Some CouldntFind) \<Rightarrow> (st', Some CouldntFind))"

text \<open>
  The events after which the hook sends a \<open>user_uttered\<close> only by its own decision: all but
  a \<open>session_confirm\<close>, a call of \<open>utter\<close> and a click.
\<close>

fun is_passive :: "event \<Rightarrow> bool" where
  "is_passive (SessionConfirm _ _) = False"
| "is_passive (Utter _ _) = False"
| "is_passive (Click _ _) = False"
| "is_passive _ = True"

section \<open>Reading the trace\<close>

text \<open>The \<open>user_uttered\<close> events of a trace, in the order they were emitted.\<close>

fun uttered :: "effect list \<Rightarrow> SocketIOUtterUser list" where
  "uttered [] = []"
| "uttered (Emit (user_uttered m) # tr) = m # uttered tr"
| "uttered (_ # tr) = uttered tr"

fun is_SessionConfirm :: "event \<Rightarrow> bool" where
  "is_SessionConfirm (SessionConfirm _ _) = True"
| "is_SessionConfirm _ = False"

definition is_user_uttered :: "effect \<Rightarrow> bool" where
  "is_user_uttered e = (case e of Emit (user_uttered _) \<Rightarrow> True | _ \<Rightarrow> False)"

definition is_SetHistory :: "effect \<Rightarrow> bool" where
  "is_SetHistory e = (case e of SetHistory _ \<Rightarrow> True | _ \<Rightarrow> False)"

text \<open>Some effect satisfying \<open>P\<close> occurs in the trace strictly before one satisfying \<open>Q\<close>.\<close>

fun precedes :: "(effect \<Rightarrow> bool) \<Rightarrow> (effect \<Rightarrow> bool) \<Rightarrow> effect list \<Rightarrow> bool" where
  "precedes P Q [] = False"
| "precedes P Q (x # xs) = ((P x \<and> list_ex Q xs) \<or> precedes P Q xs)"

section \<open>Quick-reply groups in the history\<close>

text \<open>
  A quick-reply message as \<open>bot_uttered\<close> builds it (lines 143-173): option \<open>i\<close> carries
  the closure over its own payload, its own index and the identifier of the message.
\<close>

definition wired :: "RasaMessage \<Rightarrow> bool" where
  "wired m =
     (case quick_replies m of
        None \<Rightarrow> False
      | Some qs \<Rightarrow>
          list_all (\<lambda>(i, q). onClick q = Some (OnClick (payload q) i (msg_id m)))
            (enumerate 0 qs))"

text \<open>The resolved state: the message is clicked and exactly one of its options is.\<close>

definition resolved :: "RasaMessage \<Rightarrow> bool" where
  "resolved m =
     (msg_clicked m = Some True \<and>
      (case quick_replies m of
         None \<Rightarrow> False
       | Some qs \<Rightarrow> length (filter (\<lambda>q. clicked q = Some True) qs) = 1))"

text \<open>
  A click in the user interface on option \<open>k\<close> of the message shown with identifier
  \<open>mid\<close>: the interface calls the \<open>onClick\<close> stored in that option. What is not in the
  history cannot be clicked.
\<close>

definition click :: "uuid \<Rightarrow> nat \<Rightarrow> uuid \<Rightarrow> hook_state \<Rightarrow> hook_state \<times> js_error option" where
  "click mid k u st =
     (case find (\<lambda>v. msg_id v = mid) (history st) of
        None \<Rightarrow> (st, None)
      | Some m \<Rightarrow>
          (case quick_replies m of
             None \<Rightarrow> (st, None)
           | Some qs \<Rightarrow>
               if k < length qs then
                 (case onClick (qs ! k) of
                    None \<Rightarrow> (st, None)
                  | Some c \<Rightarrow> run_onClick c u st)
               else (st, None)))"

text \<open>A sequence of clicks on one group, each with its option index and fresh identifier.\<close>

fun clicks :: "uuid \<Rightarrow> (nat \<times> uuid) list \<Rightarrow> hook_state \<Rightarrow> hook_state \<times> js_error option" where
  "clicks mid [] st = (st, None)"
| "clicks mid ((k, u) # cs) st =
     (case click mid k u st of
        (st', None) \<Rightarrow> clicks mid cs st'
      | (st', Some err) \<Rightarrow> (st', Some err))"

section \<open>A sample conversation\<close>

text \<open>
  An inbound \<open>bot_uttered\<close> payload with two options, the first a command, and the hook
  after mounting and receiving it under the identifier \<open>m1\<close>.
\<close>

definition sample_bot_message :: SocketIOUtterBot where
  "sample_bot_message =
     \<lparr>attachment = None,
      quick_replies = Some
        [\<lparr>content_type = ContentText, title = ''Yes'', payload = ''/yes'',
          clicked = None, onClick = None\<rparr>,
         \<lparr>content_type = ContentText, title = ''No'', payload = ''no thanks'',
          clicked = None, onClick = None\<rparr>],
      msg_clicked = None,
      msg_text = Some (Str ''Continue?'')\<rparr>"

definition sample_state :: hook_state where
  "sample_state = fst (on_bot_uttered (Object [] sample_bot_message) ''m1'' (mount initial))"

section \<open>Basic facts\<close>

lemma uttered_append: "uttered (a @ b) = uttered a @ uttered b"
  by (induction a rule: uttered.induct) simp_all

lemma utter_history: "history (utter msg u st) = history st @ [user_message msg u]"
  by (simp add: utter_def utter_emit_def user_message_def setHistory_def setStatus_def emit_def
        socket_emit_def Let_def)

lemma utter_status: "status (utter msg u st) = waitingForResponse"
  by (simp add: utter_def utter_emit_def setHistory_def setStatus_def emit_def socket_emit_def Let_def)

lemma utter_sessionRef: "sessionRef (utter msg u st) = sessionRef st"
  by (simp add: utter_def utter_emit_def setHistory_def setStatus_def emit_def socket_emit_def Let_def)

lemma utter_socketRef: "socketRef (utter msg u st) = socketRef st"
  by (simp add: utter_def utter_emit_def setHistory_def setStatus_def emit_def socket_emit_def Let_def)

lemma utter_trace:
  "trace (utter msg u st) =
     trace st @
     (if socketRef st
      then [Emit (user_uttered \<lparr>session_id = Some (or_else (sessionRef st) []), message = msg\<rparr>)]
      else []) @
     [SetStatus waitingForResponse, SetHistory (history st @ [user_message msg u])]"
  by (simp add: utter_def utter_emit_def user_message_def setHistory_def setStatus_def emit_def socket_emit_def Let_def)

lemma or_else_Some [simp]: "or_else (Some t) [] = t"
  by (simp add: or_else_def)

lemma or_else_None [simp]: "or_else None b = b"
  by (simp add: or_else_def)

lemma utter_emit_frame:
  "sessionRef (utter_emit msg st) = sessionRef st \<and>
   socketRef (utter_emit msg st) = socketRef st \<and>
   history (utter_emit msg st) = history st \<and>
   status (utter_emit msg st) = status st"
  by (simp add: utter_emit_def emit_def socket_emit_def)

lemma utter_emit_trace:
  "trace (utter_emit msg st) =
     trace st @
     (if socketRef st
      then [Emit (user_uttered \<lparr>session_id = Some (or_else (sessionRef st) []), message = msg\<rparr>)]
      else [])"
  by (simp add: utter_emit_def emit_def socket_emit_def)

lemma run_onClick_sessionRef: "sessionRef (fst (run_onClick c u st)) = sessionRef st"
  by (simp add: run_onClick_def Let_def setHistory_def utter_sessionRef utter_emit_frame
        split: sum.splits)

lemma run_onClick_socketRef: "socketRef (fst (run_onClick c u st)) = socketRef st"
  by (simp add: run_onClick_def Let_def setHistory_def utter_socketRef utter_emit_frame
        split: sum.splits)

lemma on_bot_uttered_frame:
  "sessionRef (fst (on_bot_uttered raw u st)) = sessionRef st \<and>
   socketRef (fst (on_bot_uttered raw u st)) = socketRef st"
  by (simp add: on_bot_uttered_def Let_def setHistory_def setStatus_def split: sum.splits)

lemma on_bot_uttered_error: "snd (on_bot_uttered raw u st) \<noteq> Some CouldntFind"
  by (cases raw) (simp_all add: on_bot_uttered_def Let_def split: sum.splits)

lemma on_bot_uttered_trace:
  "\<exists>new. trace (fst (on_bot_uttered raw u st)) = trace st @ new \<and> uttered new = []"
  by (simp add: on_bot_uttered_def Let_def setHistory_def setStatus_def split: sum.splits)

lemma on_session_confirm_socketRef:
  "socketRef (on_session_confirm cfg t u st) = socketRef st"
  by (simp add: on_session_confirm_def Let_def setSession_def utter_socketRef split: option.splits)

lemma on_session_confirm_sessionRef:
  "sessionRef (on_session_confirm cfg t u st) = Some t"
  by (simp add: on_session_confirm_def Let_def setSession_def utter_sessionRef split: option.splits)

lemma step_socketRef: "socketRef (fst (step cfg e st)) = socketRef st"
  by (cases e)
     (simp_all add: on_connect_def on_disconnect_def on_error_def emit_def socket_emit_def setStatus_def
        setHistory_def on_bot_uttered_frame on_session_confirm_socketRef utter_socketRef
        run_onClick_socketRef)

lemma step_sessionRef:
  "\<not> is_SessionConfirm e \<Longrightarrow> sessionRef (fst (step cfg e st)) = sessionRef st"
  by (cases e)
     (simp_all add: on_connect_def on_disconnect_def on_error_def emit_def socket_emit_def setStatus_def
        setHistory_def on_bot_uttered_frame utter_sessionRef run_onClick_sessionRef)

text \<open>
  Every handler only extends the trace, and each \<open>user_uttered\<close> it emits carries the
  session token stored when the handler ends.
\<close>

lemma utter_new:
  "\<exists>new. trace (utter msg u st) = trace st @ new \<and>
     (\<forall>m\<in>set (uttered new). session_id m = Some (or_else (sessionRef st) []))"
  by (simp add: utter_trace)

lemma run_onClick_new:
  "\<exists>new. trace (fst (run_onClick c u st)) = trace st @ new \<and>
     (\<forall>m\<in>set (uttered new). session_id m = Some (or_else (sessionRef st) []))"
  by (simp add: run_onClick_def Let_def setHistory_def utter_trace utter_emit_trace
        split: sum.splits)

lemma on_session_confirm_new:
  "\<exists>new. trace (on_session_confirm cfg t u st) = trace st @ new \<and>
     (\<forall>m\<in>set (uttered new). session_id m = Some t)"
  by (simp add: on_session_confirm_def Let_def setSession_def utter_trace split: option.splits)

lemma step_new:
  "\<exists>new. trace (fst (step cfg e st)) = trace st @ new \<and>
     (\<forall>m\<in>set (uttered new).
        session_id m = Some (or_else (sessionRef (fst (step cfg e st))) []))"
proof (cases e)
  case (SessionConfirm t u)
  then show ?thesis
    using on_session_confirm_new [of cfg t u st]
    by (simp add: on_session_confirm_sessionRef)
next
  case (Utter msg u)
  then show ?thesis using utter_new [of msg u st] by (simp add: utter_sessionRef)
next
  case (Click c u)
  then show ?thesis using run_onClick_new [of c u st] by (simp add: run_onClick_sessionRef)
next
  case (BotUttered raw u)
  then show ?thesis using on_bot_uttered_trace [of raw u st] by auto
qed (simp_all add: on_connect_def on_disconnect_def on_error_def emit_def socket_emit_def setStatus_def
        setHistory_def)

lemma run_new:
  "\<forall>e\<in>set es. \<not> is_SessionConfirm e \<Longrightarrow>
   sessionRef (fst (run cfg es st)) = sessionRef st \<and>
   socketRef (fst (run cfg es st)) = socketRef st \<and>
   (\<exists>new. trace (fst (run cfg es st)) = trace st @ new \<and>
     (\<forall>m\<in>set (uttered new). session_id m = Some (or_else (sessionRef st) [])))"
proof (induction es arbitrary: st)
  case Nil
  then show ?case by simp
next
  case (Cons e es)
  obtain st' r where s: "step cfg e st = (st', r)" by (cases "step cfg e st")
  have nc: "\<not> is_SessionConfirm e" and rest: "\<forall>e\<in>set es. \<not> is_SessionConfirm e"
    using Cons.prems by simp_all
  have sess: "sessionRef st' = sessionRef st" using step_sessionRef [OF nc, of cfg st] s by simp
  have sock: "socketRef st' = socketRef st" using step_socketRef [of cfg e st] s by simp
  obtain n1 where n1: "trace st' = trace st @ n1"
    "\<forall>m\<in>set (uttered n1). session_id m = Some (or_else (sessionRef st) [])"
    using step_new [of cfg e st] s sess by auto
  have cont: "?case" if go: "run cfg (e # es) st = run cfg es st'"
  proof -
    obtain n2 where n2: "trace (fst (run cfg es st')) = trace st' @ n2"
      "\<forall>m\<in>set (uttered n2). session_id m = Some (or_else (sessionRef st') [])"
      using Cons.IH [OF rest, of st'] by auto
    have "trace (fst (run cfg es st')) = trace st @ (n1 @ n2)" using n1 n2 by simp
    moreover have "\<forall>m\<in>set (uttered (n1 @ n2)). session_id m = Some (or_else (sessionRef st) [])"
      using n1 n2 sess by (auto simp: uttered_append)
    ultimately show ?thesis using Cons.IH [OF rest, of st'] go sess sock by auto
  qed
  show ?case
  proof (cases r)
    case None
    then show ?thesis using cont s by simp
  next
    case (Some err)
    show ?thesis
    proof (cases err)
      case CouldntFind
      then show ?thesis using Some s sess sock n1 by simp
    next
      case TypeError
      then show ?thesis using cont Some s by simp
    qed
  qed
qed

subsection \<open>Finding, updating and filtering by identifier\<close>

lemma findIndex_Some:
  "findIndex P xs = Some i \<Longrightarrow> i < length xs \<and> P (xs ! i) \<and> (\<forall>j<i. \<not> P (xs ! j))"
proof (induction xs arbitrary: i)
  case Nil
  then show ?case by simp
next
  case (Cons x xs)
  show ?case
  proof (cases "P x")
    case True
    with Cons.prems show ?thesis by simp
  next
    case False
    with Cons.prems obtain i' where i': "findIndex P xs = Some i'" "i = Suc i'" by auto
    from Cons.IH [OF i'(1)] False i'(2) show ?thesis
      by (auto simp: nth_Cons split: nat.splits)
  qed
qed


lemma findIndex_find: "findIndex P xs = Some i \<Longrightarrow> find P xs = Some (xs ! i)"
  by (induction xs arbitrary: i) (auto split: if_splits)

lemma find_findIndex:
  "find P xs = Some m \<Longrightarrow> \<exists>i. findIndex P xs = Some i \<and> i < length xs \<and> xs ! i = m"
  by (induction xs) (auto split: if_splits)

lemma findIndex_append: "findIndex P xs = Some i \<Longrightarrow> findIndex P (xs @ ys) = Some i"
  by (induction xs arbitrary: i) (auto split: if_splits)

lemma findIndex_first:
  "p < length xs \<Longrightarrow> P (xs ! p) \<Longrightarrow> \<forall>j<p. \<not> P (xs ! j) \<Longrightarrow> findIndex P xs = Some p"
proof (induction xs arbitrary: p)
  case Nil
  then show ?case by simp
next
  case (Cons x xs)
  show ?case
  proof (cases p)
    case 0
    with Cons.prems show ?thesis by simp
  next
    case (Suc p')
    with Cons.prems have "\<not> P x" by auto
    moreover have "findIndex P xs = Some p'"
      using Cons.prems Suc by (intro Cons.IH) auto
    ultimately show ?thesis using Suc by simp
  qed
qed

lemma findIndex_distinct:
  assumes "distinct (map f xs)" and "p < length xs"
  shows "findIndex (\<lambda>v. f v = f (xs ! p)) xs = Some p"
proof (rule findIndex_first [OF assms(2)])
  show "f (xs ! p) = f (xs ! p)" by simp
  show "\<forall>j<p. f (xs ! j) \<noteq> f (xs ! p)"
  proof (intro allI impI)
    fix j assume "j < p"
    then have "j < length (map f xs)" "p < length (map f xs)" "j \<noteq> p" using assms(2) by auto
    then have "map f xs ! j \<noteq> map f xs ! p" using assms(1) by (auto simp: distinct_conv_nth)
    then show "f (xs ! j) \<noteq> f (xs ! p)" using \<open>j < p\<close> assms(2) by simp
  qed
qed

lemma filter_distinct:
  "distinct (map f xs) \<Longrightarrow> p < length xs \<Longrightarrow>
   filter (\<lambda>r. f r \<noteq> f (xs ! p)) xs = take p xs @ drop (Suc p) xs"
proof (induction xs arbitrary: p)
  case Nil
  then show ?case by simp
next
  case (Cons x xs)
  show ?case
  proof (cases p)
    case 0
    have "\<forall>r\<in>set xs. f r \<noteq> f x" using Cons.prems(1) by (auto simp: image_iff)
    then have "filter (\<lambda>r. f r \<noteq> f x) xs = xs" by (simp add: filter_id_conv)
    with 0 show ?thesis by simp
  next
    case (Suc p')
    then have p': "p' < length xs" using Cons.prems(2) by simp
    then have "xs ! p' \<in> set xs" by simp
    then have "f x \<noteq> f (xs ! p')" using Cons.prems(1) by auto
    moreover have "filter (\<lambda>r. f r \<noteq> f (xs ! p')) xs = take p' xs @ drop (Suc p') xs"
      using Cons.prems(1) p' by (intro Cons.IH) simp_all
    ultimately show ?thesis using Suc by simp
  qed
qed

lemma find_update:
  "findIndex P xs = Some i \<Longrightarrow> P y \<Longrightarrow> find P (xs[i := y]) = Some y"
  by (induction xs arbitrary: i) (auto split: if_splits)

lemma find_append_Some: "find P xs = Some m \<Longrightarrow> find P (xs @ ys) = Some m"
  by (induction xs) (auto split: if_splits)

lemma find_filter_not: "find P (filter (\<lambda>r. \<not> P r) xs) = None"
  by (simp add: find_None_iff)

subsection \<open>Marking an option as clicked\<close>

lemma length_map_index [simp]: "length (map_index f xs) = length xs"
  by (simp add: map_index_def)

lemma nth_map_index: "i < length xs \<Longrightarrow> map_index f xs ! i = f (xs ! i) i"
  by (simp add: map_index_def nth_enumerate_eq)

lemma list_all_enumerate:
  "list_all P (enumerate n xs) = (\<forall>i<length xs. P (n + i, xs ! i))"
  by (simp add: list_all_length nth_enumerate_eq)

lemma wired_nth:
  "wired m \<Longrightarrow> quick_replies m = Some qs \<Longrightarrow> k < length qs \<Longrightarrow>
   onClick (qs ! k) = Some (OnClick (payload (qs ! k)) k (msg_id m))"
  by (simp add: wired_def list_all_enumerate)

lemma mark_clicked_simps [simp]:
  "msg_id (mark_clicked k m) = msg_id m"
  "msg_clicked (mark_clicked k m) = Some True"
  "quick_replies (mark_clicked k m) =
     map_option (map_index (\<lambda>q2 i2. q2\<lparr>clicked := Some (k = i2)\<rparr>)) (quick_replies m)"
  by (simp_all add: mark_clicked_def)

lemma wired_mark_clicked: "wired m \<Longrightarrow> wired (mark_clicked k m)"
  by (auto simp: wired_def list_all_enumerate nth_map_index split: option.splits)

lemma count_clicked:
  "length (filter ((\<lambda>q. clicked q = Some True) \<circ> (\<lambda>(i, x). x\<lparr>clicked := Some (k = i)\<rparr>))
     (enumerate n qs)) =
   (if n \<le> k \<and> k < n + length qs then 1 else 0)"
proof (induction qs arbitrary: n)
  case Nil
  then show ?case by simp
next
  case (Cons q qs)
  show ?case using Cons.IH [of "Suc n"] by (auto split: if_splits)
qed

lemma resolved_mark_clicked:
  "quick_replies m = Some qs \<Longrightarrow> k < length qs \<Longrightarrow> resolved (mark_clicked k m)"
  by (simp add: resolved_def map_index_def count_clicked)

lemma on_bot_uttered_history:
  "getType raw = Inr t \<Longrightarrow>
   \<exists>m. history (fst (on_bot_uttered raw u st)) = history st @ [m] \<and> msg_id m = u \<and>
     received m \<and> msg_type m = t \<and>
     (quick_replies (spread raw) \<noteq> None \<longrightarrow> wired m)"
  by (auto simp: on_bot_uttered_def Let_def setHistory_def setStatus_def wired_def
        list_all_enumerate nth_map_index split: option.splits)

subsection \<open>What one click does\<close>

lemma run_onClick_command:
  assumes "startsWith (q1_payload c) ''/''"
    and "findIndex (\<lambda>v. msg_id v = response_id c) (history st) = Some p"
  shows "snd (run_onClick c u st) = None"
    and "history (fst (run_onClick c u st)) =
           (history st)[p := mark_clicked (i1 c) (history st ! p)] @
           [user_message (Str (q1_payload c)) u]"
proof -
  have p: "p < length (history st)" using findIndex_Some [OF assms(2)] by simp
  have f: "findIndex (\<lambda>v. msg_id v = response_id c) (history (utter (Str (q1_payload c)) u st)) = Some p"
    by (simp add: utter_history findIndex_append [OF assms(2)])
  show "snd (run_onClick c u st) = None"
    using assms(1) f by (simp add: run_onClick_def Let_def resolve_def)
  show "history (fst (run_onClick c u st)) =
           (history st)[p := mark_clicked (i1 c) (history st ! p)] @
           [user_message (Str (q1_payload c)) u]"
    using assms(1) f p
    by (simp add: run_onClick_def Let_def resolve_def setHistory_def utter_history
          list_update_append nth_append)
qed


lemma run_onClick_text:
  assumes "\<not> startsWith (q1_payload c) ''/''"
  shows "snd (run_onClick c u st) = None"
    and "history (fst (run_onClick c u st)) =
           filter (\<lambda>r. msg_id r \<noteq> response_id c)
             (history st @ [user_message (Str (q1_payload c)) u])"
  using assms by (simp_all add: run_onClick_def Let_def setHistory_def utter_history)

lemma run_onClick_uttered:
  "socketRef st \<Longrightarrow>
   uttered (drop (length (trace st)) (trace (fst (run_onClick c u st)))) =
     [\<lparr>session_id = Some (or_else (sessionRef st) []), message = Str (q1_payload c)\<rparr>]"
  by (simp add: run_onClick_def Let_def setHistory_def utter_trace utter_emit_trace
        split: sum.splits)

lemma click_wired:
  assumes "find (\<lambda>v. msg_id v = mid) (history st) = Some m"
    and "wired m" and "quick_replies m = Some qs" and "k < length qs"
  shows "click mid k u st = run_onClick (OnClick (payload (qs ! k)) k mid) u st"
proof -
  have "msg_id m = mid" using assms(1) by (auto simp: find_Some_iff)
  then show ?thesis
    using assms wired_nth [OF assms(2,3,4)] by (simp add: click_def)
qed

lemma click_step:
  assumes "find (\<lambda>v. msg_id v = mid) (history st) = Some m"
    and "wired m" and "quick_replies m = Some qs" and "k < length qs"
  shows "snd (click mid k u st) = None"
    and "find (\<lambda>v. msg_id v = mid) (history (fst (click mid k u st))) = None \<or>
         (\<exists>m' qs'. find (\<lambda>v. msg_id v = mid) (history (fst (click mid k u st))) = Some m' \<and>
            wired m' \<and> resolved m' \<and> quick_replies m' = Some qs' \<and> length qs' = length qs)"
proof -
  let ?c = "OnClick (payload (qs ! k)) k mid"
  have eq: "click mid k u st = run_onClick ?c u st" by (rule click_wired [OF assms])
  obtain p where p: "findIndex (\<lambda>v. msg_id v = mid) (history st) = Some p"
    "p < length (history st)" "history st ! p = m"
    using find_findIndex [OF assms(1)] by auto
  show "snd (click mid k u st) = None"
  proof (cases "startsWith (payload (qs ! k)) ''/''")
    case True
    then show ?thesis using run_onClick_command(1) [of ?c st p u] p(1) eq by simp
  next
    case False
    then show ?thesis using run_onClick_text(1) [of ?c u st] eq by simp
  qed
  show "find (\<lambda>v. msg_id v = mid) (history (fst (click mid k u st))) = None \<or>
         (\<exists>m' qs'. find (\<lambda>v. msg_id v = mid) (history (fst (click mid k u st))) = Some m' \<and>
            wired m' \<and> resolved m' \<and> quick_replies m' = Some qs' \<and> length qs' = length qs)"
  proof (cases "startsWith (payload (qs ! k)) ''/''")
    case True
    have h: "history (fst (click mid k u st)) =
               (history st)[p := mark_clicked k m] @ [user_message (Str (payload (qs ! k))) u]"
      using run_onClick_command(2) [of ?c st p u] True p eq by simp
    have "find (\<lambda>v. msg_id v = mid) ((history st)[p := mark_clicked k m]) = Some (mark_clicked k m)"
      using p(1,3) findIndex_Some [OF p(1)] by (intro find_update) simp_all
    then have "find (\<lambda>v. msg_id v = mid) (history (fst (click mid k u st))) = Some (mark_clicked k m)"
      using h by (simp add: find_append_Some)
    moreover have "wired (mark_clicked k m)" by (rule wired_mark_clicked [OF assms(2)])
    moreover have "resolved (mark_clicked k m)" by (rule resolved_mark_clicked [OF assms(3,4)])
    moreover have "quick_replies (mark_clicked k m) =
        Some (map_index (\<lambda>q2 i2. q2\<lparr>clicked := Some (k = i2)\<rparr>) qs)"
      using assms(3) by simp
    ultimately show ?thesis using assms(3) by auto
  next
    case False
    have "history (fst (click mid k u st)) =
            filter (\<lambda>r. msg_id r \<noteq> mid) (history st @ [user_message (Str (payload (qs ! k))) u])"
      using run_onClick_text(2) [of ?c u st] False eq by simp
    then show ?thesis by (simp only: find_filter_not simp_thms)
  qed
qed

lemma clicks_gone:
  "find (\<lambda>v. msg_id v = mid) (history st) = None \<Longrightarrow> clicks mid cs st = (st, None)"
  by (induction cs) (auto simp: click_def)

lemma clicks_inv:
  assumes "find (\<lambda>v. msg_id v = mid) (history st) = Some m"
    and "wired m" and "quick_replies m = Some qs"
    and "\<forall>(k, u)\<in>set cs. k < length qs"
    and "cs \<noteq> [] \<or> resolved m"
  shows "snd (clicks mid cs st) = None \<and>
         (case find (\<lambda>v. msg_id v = mid) (history (fst (clicks mid cs st))) of
            None \<Rightarrow> True
          | Some m' \<Rightarrow> resolved m')"
  using assms
proof (induction cs arbitrary: st m qs)
  case Nil
  then show ?case by simp
next
  case (Cons c cs)
  obtain k u where c: "c = (k, u)" by (cases c)
  have k: "k < length qs" and rest: "\<forall>(k, u)\<in>set cs. k < length qs"
    using Cons.prems(4) c by auto
  obtain st' where st': "click mid k u st = (st', None)"
    using click_step(1) [OF Cons.prems(1,2,3) k, of u] by (cases "click mid k u st") auto
  then have run: "clicks mid (c # cs) st = clicks mid cs st'" using c by simp
  from click_step(2) [OF Cons.prems(1,2,3) k, of u] st'
  consider (gone) "find (\<lambda>v. msg_id v = mid) (history st') = None"
    | (kept) m' qs' where "find (\<lambda>v. msg_id v = mid) (history st') = Some m'"
        "wired m'" "resolved m'" "quick_replies m' = Some qs'" "length qs' = length qs"
    by auto
  then show ?case
  proof cases
    case gone
    then show ?thesis using run clicks_gone [OF gone, of cs] by simp
  next
    case kept
    have "\<forall>(k, u)\<in>set cs. k < length qs'" using rest kept(5) by simp
    then show ?thesis
      using Cons.IH [OF kept(1,2,4)] kept(3) run by simp
  qed
qed

subsection \<open>Runs\<close>

lemma step_no_confirm:
  "\<not> is_SessionConfirm e \<Longrightarrow> step cfg e st = step cfg' e st"
  by (cases e) simp_all

lemma run_no_confirm:
  "\<forall>e\<in>set es. \<not> is_SessionConfirm e \<Longrightarrow> run cfg es st = run cfg' es st"
proof (induction es arbitrary: st)
  case Nil
  then show ?case by simp
next
  case (Cons e es)
  have "step cfg e st = step cfg' e st" using Cons.prems by (simp add: step_no_confirm)
  moreover have "\<And>st'. run cfg es st' = run cfg' es st'" using Cons by simp
  ultimately show ?case by simp
qed

lemma run_append:
  "snd (run cfg es st) = None \<Longrightarrow> run cfg (es @ es') st = run cfg es' (fst (run cfg es st))"
proof (induction es arbitrary: st)
  case Nil
  then show ?case by simp
next
  case (Cons e es)
  obtain st' r where s: "step cfg e st = (st', r)" by (cases "step cfg e st")
  show ?case
  proof (cases r)
    case None
    then show ?thesis using Cons s by simp
  next
    case (Some err)
    then show ?thesis using Cons s by (cases err) simp_all
  qed
qed

lemma step_passive:
  assumes "is_passive e"
  shows "snd (step cfg e st) \<noteq> Some CouldntFind"
    and "\<exists>new. trace (fst (step cfg e st)) = trace st @ new \<and> uttered new = []"
proof -
  show "snd (step cfg e st) \<noteq> Some CouldntFind"
    using assms by (cases e) (simp_all add: on_bot_uttered_error)
  show "\<exists>new. trace (fst (step cfg e st)) = trace st @ new \<and> uttered new = []"
    using assms on_bot_uttered_trace
    by (cases e)
       (simp_all add: on_connect_def on_disconnect_def on_error_def socket_emit_def
          setStatus_def setHistory_def)
qed

lemma run_passive:
  "\<forall>e\<in>set es. is_passive e \<Longrightarrow>
   snd (run cfg es st) = None \<and>
   (\<exists>new. trace (fst (run cfg es st)) = trace st @ new \<and> uttered new = [])"
proof (induction es arbitrary: st)
  case Nil
  then show ?case by simp
next
  case (Cons e es)
  obtain st' r where s: "step cfg e st = (st', r)" by (cases "step cfg e st")
  have e: "is_passive e" and rest: "\<forall>e\<in>set es. is_passive e" using Cons.prems by simp_all
  have r: "r \<noteq> Some CouldntFind" using step_passive(1) [OF e, of cfg st] s by simp
  obtain n1 where n1: "trace st' = trace st @ n1" "uttered n1 = []"
    using step_passive(2) [OF e, of cfg st] s by auto
  obtain n2 where n2: "trace (fst (run cfg es st')) = trace st' @ n2" "uttered n2 = []"
    using Cons.IH [OF rest, of st'] by auto
  have go: "run cfg (e # es) st = run cfg es st'"
  proof (cases r)
    case None
    then show ?thesis using s by simp
  next
    case (Some err)
    then show ?thesis using s r by (cases err) simp_all
  qed
  have "trace (fst (run cfg es st')) = trace st @ (n1 @ n2)" using n1 n2 by simp
  moreover have "uttered (n1 @ n2) = []" using n1 n2 by (simp add: uttered_append)
  ultimately show ?case using Cons.IH [OF rest, of st'] go by auto
qed

lemma run_socketRef: "socketRef (fst (run cfg es st)) = socketRef st"
proof (induction es arbitrary: st)
  case Nil
  then show ?case by simp
next
  case (Cons e es)
  obtain st' r where s: "step cfg e st = (st', r)" by (cases "step cfg e st")
  have sock: "socketRef st' = socketRef st" using step_socketRef [of cfg e st] s by simp
  show ?case
  proof (cases r)
    case None
    then show ?thesis using Cons s sock by simp
  next
    case (Some err)
    then show ?thesis using Cons s sock by (cases err) simp_all
  qed
qed

section \<open>Classification\<close>

text \<open>
  C2, as the claim states it, fails at the payload
  \<open>{"hasOwnProperty": "x", "text": "hi"}\<close>: \<open>getType\<close> throws a \<open>TypeError\<close>.
\<close>

theorem getType_hasOwnProperty_counterexample:
  "getType (Object [''hasOwnProperty''] \<lparr>attachment = None, quick_replies = None,
      msg_clicked = None, msg_text = Some (Str ''hi'')\<rparr>) =
     Inl TypeError"
  by simp

text \<open>
  C2, amended. For every payload that is an object with no own key \<open>hasOwnProperty\<close>,
  \<open>getType\<close> throws nothing and classifies by strict priority: an \<open>attachment\<close> field
  gives the attachment kind whatever else is present; otherwise a \<open>quick_replies\<close> field
  gives the quick-reply kind even with \<open>text\<close>; otherwise a \<open>text\<close> field gives the text
  kind; otherwise the kind is unknown. For \<open>null\<close> and for an object with an own key
  \<open>hasOwnProperty\<close> it throws a \<open>TypeError\<close>.
\<close>

theorem getType_priority:
  "getType Null = Inl TypeError \<and>
   (''hasOwnProperty'' \<in> set ks \<longrightarrow> getType (Object ks m) = Inl TypeError) \<and>
   (''hasOwnProperty'' \<notin> set ks \<longrightarrow>
      (attachment m \<noteq> None \<longrightarrow> getType (Object ks m) = Inr MT_attachment) \<and>
      (attachment m = None \<and> quick_replies m \<noteq> None \<longrightarrow>
         getType (Object ks m) = Inr MT_quickReply) \<and>
      (attachment m = None \<and> quick_replies m = None \<and> msg_text m \<noteq> None \<longrightarrow>
         getType (Object ks m) = Inr MT_text) \<and>
      (attachment m = None \<and> quick_replies m = None \<and> msg_text m = None \<longrightarrow>
         getType (Object ks m) = Inr MT_unknown) \<and>
      getType (Object ks m) \<in> Inr ` {MT_attachment, MT_quickReply, MT_text, MT_unknown})"
  by simp

theorem getType_priority_witness:
  "''hasOwnProperty'' \<notin> set [''custom''] \<and>
   getType (Object [''custom''] \<lparr>attachment = Some (ImageAttachment ''a.png''), quick_replies = Some [],
      msg_clicked = None, msg_text = Some (Str ''hi'')\<rparr>) =
     Inr MT_attachment \<and>
   getType (Object [''custom''] \<lparr>attachment = None, quick_replies = Some [],
      msg_clicked = None, msg_text = Some (Str ''hi'')\<rparr>) =
     Inr MT_quickReply \<and>
   getType (Object [''custom''] \<lparr>attachment = None, quick_replies = None,
      msg_clicked = None, msg_text = Some (Str ''hi'')\<rparr>) =
     Inr MT_text \<and>
   getType (Object [''custom''] \<lparr>attachment = None, quick_replies = None,
      msg_clicked = None, msg_text = None\<rparr>) =
     Inr MT_unknown \<and>
   ''hasOwnProperty'' \<in> set [''hasOwnProperty''] \<and>
   getType (Object [''hasOwnProperty''] \<lparr>attachment = None, quick_replies = None,
      msg_clicked = None, msg_text = Some (Str ''hi'')\<rparr>) =
     Inl TypeError"
proof -
  have k: "''hasOwnProperty'' \<notin> set [''custom'']" by simp
  have k': "''hasOwnProperty'' \<in> set [''hasOwnProperty'']" by simp
  note t = getType_priority [of "[''custom'']", THEN conjunct2, THEN conjunct2, rule_format, OF k]
  note e = getType_priority [of "[''hasOwnProperty'']", THEN conjunct2, THEN conjunct1,
      rule_format, OF k']
  have a: "getType (Object [''custom''] \<lparr>attachment = Some (ImageAttachment ''a.png''), quick_replies = Some [],
      msg_clicked = None, msg_text = Some (Str ''hi'')\<rparr>) =
     Inr MT_attachment"
    by (rule t [THEN conjunct1, rule_format]) simp
  have b: "getType (Object [''custom''] \<lparr>attachment = None, quick_replies = Some [],
      msg_clicked = None, msg_text = Some (Str ''hi'')\<rparr>) =
     Inr MT_quickReply"
    by (rule t [THEN conjunct2, THEN conjunct1, rule_format]) simp
  have c: "getType (Object [''custom''] \<lparr>attachment = None, quick_replies = None,
      msg_clicked = None, msg_text = Some (Str ''hi'')\<rparr>) =
     Inr MT_text"
    by (rule t [THEN conjunct2, THEN conjunct2, THEN conjunct1, rule_format]) simp
  have d: "getType (Object [''custom''] \<lparr>attachment = None, quick_replies = None,
      msg_clicked = None, msg_text = None\<rparr>) =
     Inr MT_unknown"
    by (rule t [THEN conjunct2, THEN conjunct2, THEN conjunct2, THEN conjunct1, rule_format]) simp
  have f: "getType (Object [''hasOwnProperty''] \<lparr>attachment = None, quick_replies = None,
      msg_clicked = None, msg_text = Some (Str ''hi'')\<rparr>) =
     Inl TypeError"
    by (rule e)
  from k k' a b c d f show ?thesis by blast
qed

section \<open>Disconnect\<close>

text \<open>
  C9. The disconnect handler sets the status to disconnected from any status, and leaves
  the history and the session token as they were.
\<close>

theorem on_disconnect_frame:
  "status (on_disconnect st) = disconnected \<and>
   history (on_disconnect st) = history st \<and>
   sessionRef (on_disconnect st) = sessionRef st"
  by (simp add: on_disconnect_def setStatus_def)

section \<open>Sending an utterance\<close>

text \<open>
  C3, as the claim states it, at \<open>utter("hello")\<close> on a freshly mounted hook: no write
  of the history precedes the emission of \<open>user_uttered\<close>.
\<close>

theorem utter_append_before_emit_counterexample:
  "\<not> precedes is_SetHistory is_user_uttered
       (trace (utter (Str ''hello'') ''id-1'' (mount initial)))"
  by (simp add: utter_trace mount_def initial_def setStatus_def is_SetHistory_def
        is_user_uttered_def)

text \<open>
  C3, amended. Every call of \<open>utter\<close> appends exactly one user-authored text message
  (\<open>received = false\<close>) to the history and sets the status to waiting-for-response; when a
  socket exists, the \<open>user_uttered\<close> event is emitted first, then the status is set, and
  the append comes last.
\<close>

theorem utter_effects:
  "history (utter msg u st) = history st @ [user_message msg u] \<and>
   msg_text (user_message msg u) = Some msg \<and>
   received (user_message msg u) = False \<and>
   msg_type (user_message msg u) = MT_text \<and>
   status (utter msg u st) = waitingForResponse \<and>
   (socketRef st \<longrightarrow>
      drop (length (trace st)) (trace (utter msg u st)) =
        [Emit (user_uttered \<lparr>session_id = Some (or_else (sessionRef st) []), message = msg\<rparr>),
         SetStatus waitingForResponse,
         SetHistory (history st @ [user_message msg u])] \<and>
      precedes is_user_uttered is_SetHistory
        (drop (length (trace st)) (trace (utter msg u st))))"
  by (simp add: utter_history utter_status utter_trace user_message_def
        is_SetHistory_def is_user_uttered_def)

theorem utter_effects_witness:
  "socketRef (mount initial) \<and>
   history (utter (Str ''hello'') ''id-1'' (mount initial)) =
     [\<lparr>attachment = None, quick_replies = None, msg_clicked = None,
       msg_text = Some (Str ''hello''), msg_id = ''id-1'', received = False,
       msg_type = MT_text\<rparr>] \<and>
   status (utter (Str ''hello'') ''id-1'' (mount initial)) = waitingForResponse \<and>
   drop (length (trace (mount initial))) (trace (utter (Str ''hello'') ''id-1'' (mount initial))) =
     [Emit (user_uttered \<lparr>session_id = Some [], message = Str ''hello''\<rparr>),
      SetStatus waitingForResponse,
      SetHistory [user_message (Str ''hello'') ''id-1'']]"
  using utter_effects [of "Str ''hello''" "''id-1''" "mount initial"]
  by (simp add: mount_def initial_def setStatus_def user_message_def)

text \<open>
  C10. While no session token is stored, which is the case from the start until the first
  \<open>session_confirm\<close>, the \<open>user_uttered\<close> event of a call of \<open>utter\<close> carries the
  \<open>session_id\<close> field, and its value is the empty string.
\<close>

theorem utter_unset_session_id:
  assumes "sessionRef st0 = None" and "socketRef st0"
    and "\<forall>e\<in>set es. \<not> is_SessionConfirm e"
    and "st = fst (run cfg es st0)"
  shows "uttered (drop (length (trace st)) (trace (utter msg u st))) =
           [\<lparr>session_id = Some [], message = msg\<rparr>]"
proof -
  have "sessionRef st = None" and "socketRef st"
    using run_new [OF assms(3), of cfg st0] assms by simp_all
  then show ?thesis by (simp add: utter_trace)
qed

theorem utter_unset_session_id_witness:
  "sessionRef (mount initial) = None \<and> socketRef (mount initial) \<and>
   list_all (\<lambda>e. \<not> is_SessionConfirm e) [Connect, Utter (Str ''a'') ''id-1''] \<and>
   uttered (drop (length (trace (fst (run None [Connect, Utter (Str ''a'') ''id-1''] (mount initial)))))
      (trace (utter (Str ''hello'') ''id-2''
         (fst (run None [Connect, Utter (Str ''a'') ''id-1''] (mount initial)))))) =
     [\<lparr>session_id = Some [], message = Str ''hello''\<rparr>]"
proof -
  have h1: "sessionRef (mount initial) = None" and h2: "socketRef (mount initial)"
    by (simp_all add: mount_def initial_def setStatus_def)
  have h3: "\<forall>e\<in>set [Connect, Utter (Str ''a'') ''id-1'']. \<not> is_SessionConfirm e" by simp
  have h3': "list_all (\<lambda>e. \<not> is_SessionConfirm e) [Connect, Utter (Str ''a'') ''id-1'']" by simp
  from utter_unset_session_id [OF h1 h2 h3 refl, of None "Str ''hello''" "''id-2''"] h1 h2 h3'
  show ?thesis by blast
qed

section \<open>The session token\<close>

text \<open>
  C7. After a \<open>session_confirm\<close> delivering the token \<open>t\<close>, and for as long as no further
  \<open>session_confirm\<close> arrives, every \<open>user_uttered\<close> event the hook emits, from \<open>utter\<close>
  calls, from quick-reply clicks and from the configured initial utterance, carries
  \<open>session_id = t\<close>.
\<close>

theorem session_token_verbatim:
  assumes "\<forall>e\<in>set es. \<not> is_SessionConfirm e"
  shows "\<forall>m\<in>set (uttered (drop (length (trace st))
            (trace (fst (run cfg (SessionConfirm t u # es) st))))).
           session_id m = Some t"
proof -
  let ?st1 = "on_session_confirm cfg t u st"
  obtain n1 where n1: "trace ?st1 = trace st @ n1"
    "\<forall>m\<in>set (uttered n1). session_id m = Some t"
    using on_session_confirm_new [of cfg t u st] by auto
  obtain n2 where n2: "trace (fst (run cfg es ?st1)) = trace ?st1 @ n2"
    "\<forall>m\<in>set (uttered n2). session_id m = Some (or_else (sessionRef ?st1) [])"
    using run_new [OF assms, of cfg ?st1] by auto
  have "trace (fst (run cfg (SessionConfirm t u # es) st)) = trace st @ (n1 @ n2)"
    using n1 n2 by simp
  then have "drop (length (trace st)) (trace (fst (run cfg (SessionConfirm t u # es) st))) = n1 @ n2"
    by simp
  then show ?thesis
    using n1 n2 by (auto simp: uttered_append on_session_confirm_sessionRef)
qed


theorem session_token_verbatim_witness:
  "list_all (\<lambda>e. \<not> is_SessionConfirm e)
     [Utter (Str ''hi'') ''id-2'', Disconnect, Connect,
      Click (OnClick ''no'' 1 ''id-9'') ''id-3''] \<and>
   uttered (drop (length (trace (mount initial)))
     (trace (fst (run (Some ''/greet'')
        (SessionConfirm ''abc'' ''id-1'' #
           [Utter (Str ''hi'') ''id-2'', Disconnect, Connect,
            Click (OnClick ''no'' 1 ''id-9'') ''id-3''])
        (mount initial))))) =
     [\<lparr>session_id = Some ''abc'', message = Str ''/greet''\<rparr>,
      \<lparr>session_id = Some ''abc'', message = Str ''hi''\<rparr>,
      \<lparr>session_id = Some ''abc'', message = Str ''no''\<rparr>] \<and>
   list_all (\<lambda>m. session_id m = Some ''abc'')
     (uttered (drop (length (trace (mount initial)))
       (trace (fst (run (Some ''/greet'')
          (SessionConfirm ''abc'' ''id-1'' #
             [Utter (Str ''hi'') ''id-2'', Disconnect, Connect,
              Click (OnClick ''no'' 1 ''id-9'') ''id-3''])
          (mount initial))))))"
proof -
  let ?es = "[Utter (Str ''hi'') ''id-2'', Disconnect, Connect,
              Click (OnClick ''no'' 1 ''id-9'') ''id-3'']"
  have h: "\<forall>e\<in>set ?es. \<not> is_SessionConfirm e" by simp
  have h': "list_all (\<lambda>e. \<not> is_SessionConfirm e) ?es" by simp
  have ev: "uttered (drop (length (trace (mount initial)))
     (trace (fst (run (Some ''/greet'') (SessionConfirm ''abc'' ''id-1'' # ?es)
        (mount initial))))) =
     [\<lparr>session_id = Some ''abc'', message = Str ''/greet''\<rparr>,
      \<lparr>session_id = Some ''abc'', message = Str ''hi''\<rparr>,
      \<lparr>session_id = Some ''abc'', message = Str ''no''\<rparr>]"
    by code_simp
  from session_token_verbatim [OF h, of "mount initial" "Some ''/greet''" "''abc''" "''id-1''"]
  have "list_all (\<lambda>m. session_id m = Some ''abc'')
     (uttered (drop (length (trace (mount initial)))
       (trace (fst (run (Some ''/greet'') (SessionConfirm ''abc'' ''id-1'' # ?es)
          (mount initial))))))"
    by (simp only: list_all_iff)
  with h' ev show ?thesis by blast
qed

section \<open>Clicking a quick-reply option\<close>

text \<open>
  C1. Let the history hold distinct identifiers, let \<open>m\<close> be a quick-reply message in it
  (at position \<open>p\<close>, built by \<open>bot_uttered\<close>), and let option \<open>k\<close> of \<open>m\<close> be clicked.
  The click never throws. If the option's payload starts with \<open>/\<close>, the message stays
  at its position in its resolved state: the message is clicked and option \<open>k\<close>, and
  only it, is. Otherwise the message is removed, and every other message keeps its place
  in the order. In both cases the text message of the utterance is appended at the end.
\<close>

theorem click_keeps_or_removes:
  assumes "distinct (map msg_id (history st))"
    and "u \<notin> set (map msg_id (history st))"
    and "p < length (history st)" and "history st ! p = m"
    and "wired m" and "quick_replies m = Some qs"
    and "k < length qs" and "onClick (qs ! k) = Some c"
  shows "snd (run_onClick c u st) = None \<and>
         (startsWith (payload (qs ! k)) ''/'' \<longrightarrow>
            history (fst (run_onClick c u st)) =
              (history st)[p := mark_clicked k m] @ [user_message (Str (payload (qs ! k))) u] \<and>
            msg_clicked (mark_clicked k m) = Some True \<and>
            quick_replies (mark_clicked k m) =
              Some (map_index (\<lambda>q2 i2. q2\<lparr>clicked := Some (k = i2)\<rparr>) qs) \<and>
            resolved (mark_clicked k m)) \<and>
         (\<not> startsWith (payload (qs ! k)) ''/'' \<longrightarrow>
            history (fst (run_onClick c u st)) =
              take p (history st) @ drop (Suc p) (history st) @
              [user_message (Str (payload (qs ! k))) u])"
proof -
  have c: "c = OnClick (payload (qs ! k)) k (msg_id m)"
    using wired_nth [OF assms(5,6,7)] assms(8) by simp
  have idx: "findIndex (\<lambda>v. msg_id v = response_id c) (history st) = Some p"
    using findIndex_distinct [OF assms(1,3)] assms(4) c by simp
  have fresh: "u \<noteq> msg_id m" using assms(2,3,4) by auto
  show ?thesis
  proof (cases "startsWith (payload (qs ! k)) ''/''")
    case True
    then have sw: "startsWith (q1_payload c) ''/''" using c by simp
    show ?thesis
      using run_onClick_command [OF sw idx, of u] True c assms(4,6)
        resolved_mark_clicked [OF assms(6,7)]
      by simp
  next
    case False
    then have sw: "\<not> startsWith (q1_payload c) ''/''" using c by simp
    have "filter (\<lambda>r. msg_id r \<noteq> msg_id m) (history st) = take p (history st) @ drop (Suc p) (history st)"
      using filter_distinct [OF assms(1,3)] assms(4) by simp
    then show ?thesis
      using run_onClick_text [OF sw, of u st] False c fresh
      by (simp add: user_message_def)
  qed
qed

theorem click_keeps_or_removes_witness:
  "distinct (map msg_id (history sample_state)) \<and>
   ''u1'' \<notin> set (map msg_id (history sample_state)) \<and>
   wired (history sample_state ! 0) \<and>
   startsWith ''/yes'' ''/'' \<and>
   snd (run_onClick (OnClick ''/yes'' 0 ''m1'') ''u1'' sample_state) = None \<and>
   history (fst (run_onClick (OnClick ''/yes'' 0 ''m1'') ''u1'' sample_state)) =
     (history sample_state)[0 := mark_clicked 0 (history sample_state ! 0)] @
     [user_message (Str ''/yes'') ''u1''] \<and>
   resolved (mark_clicked 0 (history sample_state ! 0)) \<and>
   \<not> startsWith ''no thanks'' ''/'' \<and>
   history (fst (run_onClick (OnClick ''no thanks'' 1 ''m1'') ''u1'' sample_state)) =
     take 0 (history sample_state) @ drop (Suc 0) (history sample_state) @
     [user_message (Str ''no thanks'') ''u1'']"
proof -
  let ?qs = "[\<lparr>content_type = ContentText, title = ''Yes'', payload = ''/yes'',
                clicked = Some False, onClick = Some (OnClick ''/yes'' 0 ''m1'')\<rparr>,
              \<lparr>content_type = ContentText, title = ''No'', payload = ''no thanks'',
                clicked = Some False, onClick = Some (OnClick ''no thanks'' 1 ''m1'')\<rparr>]"
  have h1: "distinct (map msg_id (history sample_state))" by code_simp
  have h2: "''u1'' \<notin> set (map msg_id (history sample_state))" by code_simp
  have h3: "0 < length (history sample_state)" by code_simp
  have h5: "wired (history sample_state ! 0)" by code_simp
  have h6: "quick_replies (history sample_state ! 0) = Some ?qs" by code_simp
  have k0: "0 < length ?qs" and k1: "1 < length ?qs" by simp_all
  have c0: "onClick (?qs ! 0) = Some (OnClick ''/yes'' 0 ''m1'')" by simp
  have c1: "onClick (?qs ! 1) = Some (OnClick ''no thanks'' 1 ''m1'')" by simp
  have s0: "startsWith ''/yes'' ''/''" and s1: "\<not> startsWith ''no thanks'' ''/''"
    by (simp_all add: startsWith_def)
  from click_keeps_or_removes [OF h1 h2 h3 refl h5 h6 k0 c0] s0
  have r0: "snd (run_onClick (OnClick ''/yes'' 0 ''m1'') ''u1'' sample_state) = None \<and>
     history (fst (run_onClick (OnClick ''/yes'' 0 ''m1'') ''u1'' sample_state)) =
       (history sample_state)[0 := mark_clicked 0 (history sample_state ! 0)] @
       [user_message (Str ''/yes'') ''u1''] \<and>
     resolved (mark_clicked 0 (history sample_state ! 0))"
    by simp
  from click_keeps_or_removes [OF h1 h2 h3 refl h5 h6 k1 c1] s1
  have r1: "history (fst (run_onClick (OnClick ''no thanks'' 1 ''m1'') ''u1'' sample_state)) =
     take 0 (history sample_state) @ drop (Suc 0) (history sample_state) @
     [user_message (Str ''no thanks'') ''u1'']"
    by simp
  from h1 h2 h5 s0 s1 r0 r1 show ?thesis by blast
qed

text \<open>
  C4. For a quick-reply message built by \<open>bot_uttered\<close> and any non-empty sequence of
  clicks on its options: no click throws, and if the message is still in the history
  after the last click, the message is clicked and exactly one of its options is.
\<close>

theorem clicks_exactly_one:
  assumes "find (\<lambda>v. msg_id v = mid) (history st) = Some m"
    and "wired m" and "quick_replies m = Some qs"
    and "\<forall>(k, u)\<in>set cs. k < length qs"
    and "cs \<noteq> []"
  shows "snd (clicks mid cs st) = None \<and>
         (case find (\<lambda>v. msg_id v = mid) (history (fst (clicks mid cs st))) of
            None \<Rightarrow> True
          | Some m' \<Rightarrow> resolved m')"
  using clicks_inv [OF assms(1,2,3,4)] assms(5) by simp

theorem clicks_exactly_one_witness:
  "find (\<lambda>v. msg_id v = ''m1'') (history sample_state) = Some (history sample_state ! 0) \<and>
   wired (history sample_state ! 0) \<and>
   list_all (\<lambda>(k, u). k < (2::nat)) [(0, ''u1''), (0, ''u2'')] \<and>
   find (\<lambda>v. msg_id v = ''m1'')
     (history (fst (clicks ''m1'' [(0, ''u1''), (0, ''u2'')] sample_state))) \<noteq> None \<and>
   snd (clicks ''m1'' [(0, ''u1''), (0, ''u2'')] sample_state) = None \<and>
   (case find (\<lambda>v. msg_id v = ''m1'')
           (history (fst (clicks ''m1'' [(0, ''u1''), (0, ''u2'')] sample_state))) of
      None \<Rightarrow> True
    | Some m' \<Rightarrow> resolved m')"
proof -
  let ?qs = "[\<lparr>content_type = ContentText, title = ''Yes'', payload = ''/yes'',
                clicked = Some False, onClick = Some (OnClick ''/yes'' 0 ''m1'')\<rparr>,
              \<lparr>content_type = ContentText, title = ''No'', payload = ''no thanks'',
                clicked = Some False, onClick = Some (OnClick ''no thanks'' 1 ''m1'')\<rparr>]"
  have h1: "find (\<lambda>v. msg_id v = ''m1'') (history sample_state) = Some (history sample_state ! 0)"
    by code_simp
  have h2: "wired (history sample_state ! 0)" by code_simp
  have h3: "quick_replies (history sample_state ! 0) = Some ?qs" by code_simp
  have h4: "\<forall>(k, u)\<in>set [(0, ''u1''), (0, ''u2'')]. k < length ?qs" by simp
  have h4': "list_all (\<lambda>(k, u). k < (2::nat)) [(0, ''u1''), (0, ''u2'')]" by simp
  have h5: "[(0::nat, ''u1''), (0, ''u2'')] \<noteq> []" by simp
  have kept: "find (\<lambda>v. msg_id v = ''m1'')
     (history (fst (clicks ''m1'' [(0, ''u1''), (0, ''u2'')] sample_state))) \<noteq> None"
    by code_simp
  from clicks_exactly_one [OF h1 h2 h3 h4 h5] h1 h2 h4' kept show ?thesis by blast
qed




text \<open>
  C6, as the claim states it, fails after a first click on the option \<open>/yes\<close>: the
  message is resolved, and a second click on the same option changes the history and the
  \<open>user_uttered\<close> events emitted.
\<close>

theorem second_click_counterexample:
  "resolved (history (fst (click ''m1'' 0 ''u1'' sample_state)) ! 0) \<and>
   history (fst (click ''m1'' 0 ''u2'' (fst (click ''m1'' 0 ''u1'' sample_state)))) \<noteq>
     history (fst (click ''m1'' 0 ''u1'' sample_state)) \<and>
   uttered (trace (fst (click ''m1'' 0 ''u2'' (fst (click ''m1'' 0 ''u1'' sample_state))))) \<noteq>
     uttered (trace (fst (click ''m1'' 0 ''u1'' sample_state)))"
  by code_simp

text \<open>
  C6, amended. A click on an option of an already resolved group is handled like a first
  click: it emits one more \<open>user_uttered\<close> event with the option's payload and changes the
  history; if the payload starts with \<open>/\<close> the group is resolved again to the option
  clicked now and the text message of the utterance is appended, otherwise the group is
  removed and the text message appended.
\<close>

theorem second_click_processed:
  assumes "findIndex (\<lambda>v. msg_id v = mid) (history st) = Some p"
    and "wired (history st ! p)" and "resolved (history st ! p)"
    and "quick_replies (history st ! p) = Some qs" and "k < length qs"
    and "socketRef st" and "u \<noteq> mid"
  shows "uttered (drop (length (trace st)) (trace (fst (click mid k u st)))) =
           [\<lparr>session_id = Some (or_else (sessionRef st) []), message = Str (payload (qs ! k))\<rparr>] \<and>
         history (fst (click mid k u st)) \<noteq> history st \<and>
         (startsWith (payload (qs ! k)) ''/'' \<longrightarrow>
            history (fst (click mid k u st)) =
              (history st)[p := mark_clicked k (history st ! p)] @
              [user_message (Str (payload (qs ! k))) u]) \<and>
         (\<not> startsWith (payload (qs ! k)) ''/'' \<longrightarrow>
            history (fst (click mid k u st)) =
              filter (\<lambda>r. msg_id r \<noteq> mid) (history st) @
              [user_message (Str (payload (qs ! k))) u])"
proof -
  let ?c = "OnClick (payload (qs ! k)) k mid"
  have fnd: "find (\<lambda>v. msg_id v = mid) (history st) = Some (history st ! p)"
    by (rule findIndex_find [OF assms(1)])
  have eq: "click mid k u st = run_onClick ?c u st"
    by (rule click_wired [OF fnd assms(2,4,5)])
  have p: "p < length (history st)" "msg_id (history st ! p) = mid"
    using findIndex_Some [OF assms(1)] by simp_all
  have ev: "uttered (drop (length (trace st)) (trace (fst (click mid k u st)))) =
           [\<lparr>session_id = Some (or_else (sessionRef st) []), message = Str (payload (qs ! k))\<rparr>]"
    using run_onClick_uttered [OF assms(6), of ?c u] eq by simp
  show ?thesis
  proof (cases "startsWith (payload (qs ! k)) ''/''")
    case True
    have h: "history (fst (click mid k u st)) =
              (history st)[p := mark_clicked k (history st ! p)] @
              [user_message (Str (payload (qs ! k))) u]"
      using run_onClick_command(2) [of ?c st p u] True assms(1) eq by simp
    then have "length (history (fst (click mid k u st))) = Suc (length (history st))" by simp
    then have "history (fst (click mid k u st)) \<noteq> history st" by auto
    then show ?thesis using ev h True by simp
  next
    case False
    have h: "history (fst (click mid k u st)) =
              filter (\<lambda>r. msg_id r \<noteq> mid) (history st) @
              [user_message (Str (payload (qs ! k))) u]"
      using run_onClick_text(2) [of ?c u st] False eq assms(7) by (simp add: user_message_def)
    have "history st ! p \<in> set (history st)" using p(1) by simp
    moreover have "history st ! p \<notin> set (history (fst (click mid k u st)))"
      using h p(2) assms(7) by (auto simp: user_message_def)
    ultimately have "history (fst (click mid k u st)) \<noteq> history st" by auto
    then show ?thesis using ev h False by simp
  qed
qed

theorem second_click_processed_witness:
  "findIndex (\<lambda>v. msg_id v = ''m1'') (history (fst (click ''m1'' 0 ''u1'' sample_state))) = Some 0 \<and>
   wired (history (fst (click ''m1'' 0 ''u1'' sample_state)) ! 0) \<and>
   resolved (history (fst (click ''m1'' 0 ''u1'' sample_state)) ! 0) \<and>
   socketRef (fst (click ''m1'' 0 ''u1'' sample_state)) \<and>
   uttered (drop (length (trace (fst (click ''m1'' 0 ''u1'' sample_state))))
      (trace (fst (click ''m1'' 1 ''u2'' (fst (click ''m1'' 0 ''u1'' sample_state)))))) =
     [\<lparr>session_id = Some [], message = Str ''no thanks''\<rparr>] \<and>
   history (fst (click ''m1'' 1 ''u2'' (fst (click ''m1'' 0 ''u1'' sample_state)))) \<noteq>
     history (fst (click ''m1'' 0 ''u1'' sample_state)) \<and>
   history (fst (click ''m1'' 1 ''u2'' (fst (click ''m1'' 0 ''u1'' sample_state)))) =
     filter (\<lambda>r. msg_id r \<noteq> ''m1'') (history (fst (click ''m1'' 0 ''u1'' sample_state))) @
     [user_message (Str ''no thanks'') ''u2'']"
proof -
  let ?st = "fst (click ''m1'' 0 ''u1'' sample_state)"
  let ?qs = "[\<lparr>content_type = ContentText, title = ''Yes'', payload = ''/yes'',
                clicked = Some True, onClick = Some (OnClick ''/yes'' 0 ''m1'')\<rparr>,
              \<lparr>content_type = ContentText, title = ''No'', payload = ''no thanks'',
                clicked = Some False, onClick = Some (OnClick ''no thanks'' 1 ''m1'')\<rparr>]"
  have h1: "findIndex (\<lambda>v. msg_id v = ''m1'') (history ?st) = Some 0" by code_simp
  have h2: "wired (history ?st ! 0)" by code_simp
  have h3: "resolved (history ?st ! 0)" by code_simp
  have h4: "quick_replies (history ?st ! 0) = Some ?qs" by code_simp
  have h5: "1 < length ?qs" by simp
  have h6: "socketRef ?st" by code_simp
  have h7: "''u2'' \<noteq> ''m1''" by simp
  have h8: "sessionRef ?st = None" by code_simp
  have s1: "\<not> startsWith ''no thanks'' ''/''" by (simp add: startsWith_def)
  note t = second_click_processed [OF h1 h2 h3 h4 h5 h6 h7]
  have a: "uttered (drop (length (trace ?st)) (trace (fst (click ''m1'' 1 ''u2'' ?st)))) =
     [\<lparr>session_id = Some [], message = Str ''no thanks''\<rparr>]"
    using t [THEN conjunct1] h8 by simp
  have b: "history (fst (click ''m1'' 1 ''u2'' ?st)) \<noteq> history ?st"
    by (rule t [THEN conjunct2, THEN conjunct1])
  have c: "history (fst (click ''m1'' 1 ''u2'' ?st)) =
     filter (\<lambda>r. msg_id r \<noteq> ''m1'') (history ?st) @ [user_message (Str ''no thanks'') ''u2'']"
    using t [THEN conjunct2, THEN conjunct2, THEN conjunct2] s1 by simp
  from a b c h1 h2 h3 h6 show ?thesis by blast
qed

section \<open>The initial utterance\<close>

text \<open>
  C8, as the claim states it, fails where the socket reconnects and the server confirms
  the session a second time: the configured utterance is emitted twice.
\<close>

theorem sendOnConnect_twice_counterexample:
  "uttered (trace (fst (run (Some ''/greet'')
      [Connect, SessionConfirm ''abc'' ''u1'', Disconnect, Connect, SessionConfirm ''abc'' ''u2'']
      (mount initial)))) =
     [\<lparr>session_id = Some ''abc'', message = Str ''/greet''\<rparr>,
      \<lparr>session_id = Some ''abc'', message = Str ''/greet''\<rparr>]"
  by code_simp

text \<open>
  C8, amended. With a non-empty \<open>sendOnConnect\<close> configured and a socket present, each
  \<open>session_confirm\<close> handled stores the token first and then emits exactly one
  \<open>user_uttered\<close> event, which carries the token just confirmed and the configured
  utterance, and appends exactly one text message for it; so the utterance is emitted
  once for every \<open>session_confirm\<close>. It is never emitted before a \<open>session_confirm\<close>: over
  any events without one, the hook behaves as with no \<open>sendOnConnect\<close> configured, and
  from any state, over any events other than calls of \<open>utter\<close> and clicks, the
  \<open>user_uttered\<close> of the first \<open>session_confirm\<close> is the only one emitted.
\<close>

theorem sendOnConnect_once_per_confirm:
  assumes "s \<noteq> []" and "socketRef st"
  shows "drop (length (trace st)) (trace (on_session_confirm (Some s) t u st)) =
           [SetSession t,
            Emit (user_uttered \<lparr>session_id = Some t, message = Str s\<rparr>),
            SetStatus waitingForResponse,
            SetHistory (history st @ [user_message (Str s) u])] \<and>
         history (on_session_confirm (Some s) t u st) =
           history st @ [user_message (Str s) u] \<and>
         msg_type (user_message (Str s) u) = MT_text \<and>
         ((\<forall>e\<in>set es. \<not> is_SessionConfirm e) \<longrightarrow>
            run (Some s) es st = run None es st) \<and>
         ((\<forall>e\<in>set es. is_passive e) \<longrightarrow>
            uttered (drop (length (trace st))
              (trace (fst (run (Some s) (es @ [SessionConfirm t u]) st)))) =
              [\<lparr>session_id = Some t, message = Str s\<rparr>])"
proof -
  have one: "trace (on_session_confirm (Some s) t u st') =
      trace st' @
      [SetSession t,
       Emit (user_uttered \<lparr>session_id = Some t, message = Str s\<rparr>),
       SetStatus waitingForResponse,
       SetHistory (history st' @ [user_message (Str s) u])]"
    if "socketRef st'" for st'
    using that assms(1)
    by (simp add: on_session_confirm_def Let_def setSession_def utter_trace)
  have a: "drop (length (trace st)) (trace (on_session_confirm (Some s) t u st)) =
           [SetSession t,
            Emit (user_uttered \<lparr>session_id = Some t, message = Str s\<rparr>),
            SetStatus waitingForResponse,
            SetHistory (history st @ [user_message (Str s) u])]"
    using one [OF assms(2)] by simp
  have b: "history (on_session_confirm (Some s) t u st) = history st @ [user_message (Str s) u]"
    using assms(1) by (simp add: on_session_confirm_def Let_def setSession_def utter_history)
  have c: "msg_type (user_message (Str s) u) = MT_text" by (simp add: user_message_def)
  have d: "run (Some s) es st = run None es st" if "\<forall>e\<in>set es. \<not> is_SessionConfirm e"
    using that by (rule run_no_confirm)
  have e: "uttered (drop (length (trace st))
              (trace (fst (run (Some s) (es @ [SessionConfirm t u]) st)))) =
              [\<lparr>session_id = Some t, message = Str s\<rparr>]"
    if p: "\<forall>e\<in>set es. is_passive e"
  proof -
    let ?st1 = "fst (run (Some s) es st)"
    obtain n1 where n1: "snd (run (Some s) es st) = None"
      "trace ?st1 = trace st @ n1" "uttered n1 = []"
      using run_passive [OF p, of "Some s" st] by auto
    have sock: "socketRef ?st1" using run_socketRef [of "Some s" es st] assms(2) by simp
    have "run (Some s) (es @ [SessionConfirm t u]) st = run (Some s) [SessionConfirm t u] ?st1"
      by (rule run_append [OF n1(1)])
    then have "trace (fst (run (Some s) (es @ [SessionConfirm t u]) st)) =
        trace (on_session_confirm (Some s) t u ?st1)"
      by simp
    then have "drop (length (trace st)) (trace (fst (run (Some s) (es @ [SessionConfirm t u]) st))) =
        n1 @ [SetSession t,
              Emit (user_uttered \<lparr>session_id = Some t, message = Str s\<rparr>),
              SetStatus waitingForResponse,
              SetHistory (history ?st1 @ [user_message (Str s) u])]"
      using one [OF sock] n1(2) by simp
    then show ?thesis using n1(3) by (simp add: uttered_append)
  qed
  from a b c d e show ?thesis by blast
qed

theorem sendOnConnect_once_per_confirm_witness:
  "''/greet'' \<noteq> [] \<and> socketRef (mount initial) \<and>
   list_all (\<lambda>e. \<not> is_SessionConfirm e) [Connect, Disconnect, Connect] \<and>
   list_all is_passive [Connect, Disconnect, Connect] \<and>
   drop (length (trace (mount initial)))
     (trace (on_session_confirm (Some ''/greet'') ''abc'' ''u1'' (mount initial))) =
     [SetSession ''abc'',
      Emit (user_uttered \<lparr>session_id = Some ''abc'', message = Str ''/greet''\<rparr>),
      SetStatus waitingForResponse,
      SetHistory (history (mount initial) @ [user_message (Str ''/greet'') ''u1''])] \<and>
   history (on_session_confirm (Some ''/greet'') ''abc'' ''u1'' (mount initial)) =
     history (mount initial) @ [user_message (Str ''/greet'') ''u1''] \<and>
   run (Some ''/greet'') [Connect, Disconnect, Connect] (mount initial) =
     run None [Connect, Disconnect, Connect] (mount initial) \<and>
   uttered (drop (length (trace (mount initial)))
     (trace (fst (run (Some ''/greet'')
        ([Connect, Disconnect, Connect] @ [SessionConfirm ''abc'' ''u1'']) (mount initial))))) =
     [\<lparr>session_id = Some ''abc'', message = Str ''/greet''\<rparr>]"
proof -
  have h1: "''/greet'' \<noteq> []" by simp
  have h2: "socketRef (mount initial)" by code_simp
  have h3: "\<forall>e\<in>set [Connect, Disconnect, Connect]. \<not> is_SessionConfirm e" by simp
  have h4: "\<forall>e\<in>set [Connect, Disconnect, Connect]. is_passive e" by simp
  have h3': "list_all (\<lambda>e. \<not> is_SessionConfirm e) [Connect, Disconnect, Connect]" by simp
  have h4': "list_all is_passive [Connect, Disconnect, Connect]" by simp
  note t = sendOnConnect_once_per_confirm [OF h1 h2, of "''abc''" "''u1''"
      "[Connect, Disconnect, Connect]"]
  from t h1 h2 h3 h4 h3' h4' show ?thesis by blast
qed

end
